theory Spec2Isabelle
  imports Complex_Main "HOL-Library.Sublist"
begin

section \<open>Python text\<close>

text \<open>
  A Python \<open>str\<close> is a sequence of Unicode code points. The strings that the program
  inspects (the query, the strings of the roster) are modelled as \<open>string\<close>, one
  \<open>char\<close> per code point, which covers the code points U+0000 to U+00FF; the text
  operations below are \<open>str.isspace\<close>, \<open>str.lower\<close>, \<open>str.isdigit\<close> on that block.
  The strings that the program produces contain code points beyond U+00FF (the
  pictographs of the messages), so they are lists of code points, \<open>ustring\<close>.
\<close>

type_synonym ustring = "nat list"

definition ustr :: "string \<Rightarrow> ustring" where
  "ustr s = map of_char s"

definition nl :: ustring where
  "nl = [10]"

definition is_space :: "char \<Rightarrow> bool" where
  \<comment> \<open>\<open>str.isspace\<close>: U+0009..U+000D, U+001C..U+0020, U+0085, U+00A0\<close>
  "is_space c =
     (let n = (of_char c :: nat)
      in (9 \<le> n \<and> n \<le> 13) \<or> (28 \<le> n \<and> n \<le> 32) \<or> n = 133 \<or> n = 160)"

definition strip :: "string \<Rightarrow> string" where
  "strip s = rev (dropWhile is_space (rev (dropWhile is_space s)))"

definition lower_char :: "char \<Rightarrow> char" where
  \<comment> \<open>A..Z, and U+00C0..U+00DE without the multiplication sign U+00D7\<close>
  "lower_char c =
     (let n = (of_char c :: nat)
      in if (65 \<le> n \<and> n \<le> 90) \<or> (192 \<le> n \<and> n \<le> 222 \<and> n \<noteq> 215)
         then char_of (n + 32) else c)"

definition lower :: "string \<Rightarrow> string" where
  "lower s = map lower_char s"

definition is_decimal_char :: "char \<Rightarrow> bool" where
  "is_decimal_char c = (let n = (of_char c :: nat) in 48 \<le> n \<and> n \<le> 57)"

definition is_digit_char :: "char \<Rightarrow> bool" where
  \<comment> \<open>the decimal digits, and the superscript digits U+00B2, U+00B3, U+00B9\<close>
  "is_digit_char c =
     (let n = (of_char c :: nat) in (48 \<le> n \<and> n \<le> 57) \<or> n = 178 \<or> n = 179 \<or> n = 185)"

definition isdigit :: "string \<Rightarrow> bool" where
  "isdigit s = (s \<noteq> [] \<and> list_all is_digit_char s)"

fun contains :: "string \<Rightarrow> string \<Rightarrow> bool" where
  \<comment> \<open>\<open>sub in s\<close>\<close>
  "contains sub [] = (sub = [])"
| "contains sub (c # cs) = (prefix sub (c # cs) \<or> contains sub cs)"

fun join :: "ustring \<Rightarrow> ustring list \<Rightarrow> ustring" where
  "join sep [] = []"
| "join sep [x] = x"
| "join sep (x # y # ys) = x @ sep @ join sep (y # ys)"

definition upper_char :: "char \<Rightarrow> char" where
  "upper_char c =
     (let n = (of_char c :: nat) in if 97 \<le> n \<and> n \<le> 122 then char_of (n - 32) else c)"

definition is_cased :: "char \<Rightarrow> bool" where
  "is_cased c =
     (let n = (of_char c :: nat) in (65 \<le> n \<and> n \<le> 90) \<or> (97 \<le> n \<and> n \<le> 122))"

fun title_from :: "bool \<Rightarrow> string \<Rightarrow> string" where
  "title_from previous_is_cased [] = []"
| "title_from previous_is_cased (c # cs) =
     (if previous_is_cased then lower_char c else upper_char c) # title_from (is_cased c) cs"

definition title :: "string \<Rightarrow> string" where
  \<comment> \<open>\<open>str.title\<close> on ASCII text; the program applies it to the three category terms only\<close>
  "title s = title_from False s"

subsection \<open>Integers and text\<close>

definition digit_char :: "nat \<Rightarrow> char" where
  "digit_char d = char_of (48 + d)"

fun digits_of :: "nat \<Rightarrow> string" where
  "digits_of n = (if n < 10 then [digit_char n] else digits_of (n div 10) @ [digit_char (n mod 10)])"

declare digits_of.simps [simp del]

definition str_int :: "int \<Rightarrow> string" where
  \<comment> \<open>\<open>str(i)\<close> of a Python int\<close>
  "str_int i = (if i < 0 then CHR ''-'' # digits_of (nat (- i)) else digits_of (nat i))"

definition digit_value :: "char \<Rightarrow> nat" where
  "digit_value c = of_char c - 48"

definition decimal_value :: "string \<Rightarrow> nat" where
  "decimal_value s = foldl (\<lambda>acc c. 10 * acc + digit_value c) 0 s"

datatype error = ValueError | KeyError | AttributeError | TypeError

definition MAX_STR_DIGITS_THRESHOLD :: nat where
  "MAX_STR_DIGITS_THRESHOLD = 640"

definition py_int :: "nat \<Rightarrow> string \<Rightarrow> error + int" where
  \<comment> \<open>\<open>int(s)\<close> for a string that passed \<open>str.isdigit\<close>, so without sign, underscore or
      surrounding space. A digit that is not a decimal digit is an invalid literal. The
      interpreter refuses a literal of more than \<open>max_str_digits\<close> digits when that limit
      is set (0 is no limit; the default of the interpreters that have one is 4300).\<close>
  "py_int max_str_digits s =
     (if s = [] \<or> \<not> list_all is_decimal_char s then Inl ValueError
      else if length s > MAX_STR_DIGITS_THRESHOLD \<and> max_str_digits > 0 \<and> length s > max_str_digits
      then Inl ValueError
      else Inr (int (decimal_value s)))"

section \<open>The roster\<close>

text \<open>
  \<open>json.load\<close> gives a list of dictionaries. The values of the fields are the JSON
  scalars: null, a boolean, a number, a string. A number is a Python int or a Python
  float. A float is given by its value (a finite float is a rational number; the
  parser also accepts the literals \<open>Infinity\<close>, \<open>-Infinity\<close> and \<open>NaN\<close>) and by
  the text that \<open>str\<close> gives for it, which is not computed here. Lists and
  dictionaries as field values are left out of the model.
\<close>

datatype float_value = Finite rat | PosInf | NegInf | NaN

fun float_less :: "float_value \<Rightarrow> float_value \<Rightarrow> bool" where
  \<comment> \<open>\<open><\<close> on numbers: every comparison with NaN is false\<close>
  "float_less NaN y = False"
| "float_less x NaN = False"
| "float_less (Finite a) (Finite b) = (a < b)"
| "float_less (Finite a) PosInf = True"
| "float_less (Finite a) NegInf = False"
| "float_less PosInf y = False"
| "float_less NegInf NegInf = False"
| "float_less NegInf y = True"

definition float_le :: "float_value \<Rightarrow> float_value \<Rightarrow> bool" where
  \<comment> \<open>\<open><=\<close> on numbers\<close>
  "float_le x y = (float_less x y \<or> (x = y \<and> x \<noteq> NaN))"

datatype json = JNull | JBool bool | JInt int | JFloat float_value string | JStr string

type_synonym player = "string \<rightharpoonup> json"

definition py_str :: "json \<Rightarrow> ustring" where
  \<comment> \<open>the text an f-string puts for a value\<close>
  "py_str v = (case v of JNull \<Rightarrow> ustr ''None''
                | JBool b \<Rightarrow> ustr (if b then ''True'' else ''False'')
                | JInt i \<Rightarrow> ustr (str_int i)
                | JFloat x text \<Rightarrow> ustr text
                | JStr s \<Rightarrow> ustr s)"

definition dget :: "player \<Rightarrow> string \<Rightarrow> json" where
  \<comment> \<open>\<open>p.get(k)\<close>: None for a missing key\<close>
  "dget p k = (case p k of None \<Rightarrow> JNull | Some v \<Rightarrow> v)"

definition dget_default :: "player \<Rightarrow> string \<Rightarrow> json \<Rightarrow> json" where
  \<comment> \<open>\<open>p.get(k, d)\<close>\<close>
  "dget_default p k d = (case p k of None \<Rightarrow> d | Some v \<Rightarrow> v)"

definition getitem :: "player \<Rightarrow> string \<Rightarrow> error + json" where
  \<comment> \<open>\<open>p[k]\<close>\<close>
  "getitem p k = (case p k of None \<Rightarrow> Inl KeyError | Some v \<Rightarrow> Inr v)"

definition ebind :: "error + 'a \<Rightarrow> ('a \<Rightarrow> error + 'b) \<Rightarrow> error + 'b" where
  "ebind m f = (case m of Inl e \<Rightarrow> Inl e | Inr x \<Rightarrow> f x)"

fun emap :: "('a \<Rightarrow> error + 'b) \<Rightarrow> 'a list \<Rightarrow> error + 'b list" where
  \<comment> \<open>a list comprehension whose element expression may raise\<close>
  "emap f [] = Inr []"
| "emap f (x # xs) = ebind (f x) (\<lambda>y. ebind (emap f xs) (\<lambda>ys. Inr (y # ys)))"

definition present :: "player \<Rightarrow> string \<Rightarrow> bool" where
  \<comment> \<open>\<open>p.get(k) is not None\<close>\<close>
  "present p k = (dget p k \<noteq> JNull)"

subsection \<open>Comparison of field values\<close>

fun str_less :: "string \<Rightarrow> string \<Rightarrow> bool" where
  \<comment> \<open>\<open><\<close> on str: lexicographic, by code point\<close>
  "str_less [] [] = False"
| "str_less [] (y # ys) = True"
| "str_less (x # xs) [] = False"
| "str_less (x # xs) (y # ys) =
     ((of_char x :: nat) < of_char y \<or> (x = y \<and> str_less xs ys))"

definition number_of :: "json \<Rightarrow> float_value option" where
  \<comment> \<open>the value of a number; a boolean is the int 0 or 1\<close>
  "number_of v = (case v of JBool b \<Rightarrow> Some (Finite (of_bool b))
                   | JInt i \<Rightarrow> Some (Finite (of_int i))
                   | JFloat x text \<Rightarrow> Some x
                   | _ \<Rightarrow> None)"

definition py_less :: "json \<Rightarrow> json \<Rightarrow> error + bool" where
  \<comment> \<open>\<open>a < b\<close>: numbers compare by value (an int with a float exactly), strings with
      strings, and any other pair of types is not ordered\<close>
  "py_less a b =
     (case (a, b) of
        (JStr x, JStr y) \<Rightarrow> Inr (str_less x y)
      | _ \<Rightarrow> (case (number_of a, number_of b) of
                (Some x, Some y) \<Rightarrow> Inr (float_less x y)
              | _ \<Rightarrow> Inl TypeError))"

definition py_greater :: "json \<Rightarrow> json \<Rightarrow> error + bool" where
  "py_greater a b = py_less b a"

fun extremum :: "(json \<Rightarrow> json \<Rightarrow> error + bool) \<Rightarrow> (player \<Rightarrow> json) \<Rightarrow> player \<Rightarrow> player list
    \<Rightarrow> error + player" where
  \<comment> \<open>the scan of the builtins \<open>max\<close> and \<open>min\<close> with a key: the running extremum is
      replaced when the key of the next item compares strictly beyond its key\<close>
  "extremum beyond key cur [] = Inr cur"
| "extremum beyond key cur (p # ps) =
     ebind (beyond (key p) (key cur)) (\<lambda>b. extremum beyond key (if b then p else cur) ps)"

definition py_max :: "player list \<Rightarrow> (player \<Rightarrow> json) \<Rightarrow> error + player" where
  "py_max xs key = (case xs of [] \<Rightarrow> Inl ValueError | x # rest \<Rightarrow> extremum py_greater key x rest)"

definition py_min :: "player list \<Rightarrow> (player \<Rightarrow> json) \<Rightarrow> error + player" where
  "py_min xs key = (case xs of [] \<Rightarrow> Inl ValueError | x # rest \<Rightarrow> extremum py_less key x rest)"

section \<open>The responder\<close>

definition STANDARD_TERMS :: "string list" where
  "STANDARD_TERMS =
     [''batsman'', ''bowler'', ''all-rounder'', ''player list'', ''best player'', ''worst player'']"

text \<open>
  \<open>process.extractOne\<close> belongs to the fuzzy matching library, not to this program: it
  is a parameter of the model. It gives the best choice with its score, or None.
\<close>

type_synonym extract_one = "string \<Rightarrow> string list \<Rightarrow> (string \<times> int) option"

definition get_best_match :: "extract_one \<Rightarrow> string \<Rightarrow> string list \<Rightarrow> int \<Rightarrow> error + string option" where
  "get_best_match extractOne user_input choices threshold =
     (if strip user_input = [] then Inr None
      else case extractOne user_input choices of
             None \<Rightarrow> Inl TypeError
           | Some (match, score) \<Rightarrow> Inr (if score \<ge> threshold then Some match else None))"

definition value_text :: "player \<Rightarrow> error + ustring" where
  "value_text p =
     (if present p ''Value''
      then ebind (getitem p ''Value'') (\<lambda>v. Inr (ustr ''$'' @ py_str v))
      else Inr (ustr ''N/A''))"

definition format_player_info :: "player \<Rightarrow> int option \<Rightarrow> error + ustring" where
  "format_player_info player index =
     (let prefix = (case index of Some i \<Rightarrow> ustr (str_int i) @ ustr ''. '' | None \<Rightarrow> [])
      in ebind (value_text player) (\<lambda>value.
         ebind (getitem player ''Name'') (\<lambda>name.
         ebind (getitem player ''University'') (\<lambda>university.
         ebind (getitem player ''Category'') (\<lambda>category.
           Inr (prefix @ py_str name @ ustr '' - '' @ py_str university @ ustr '' - ''
                @ py_str category @ ustr '' - '' @ value))))))"

definition category_lower :: "player \<Rightarrow> error + string" where
  \<comment> \<open>\<open>p.get('Category', '').lower()\<close>: only a str has \<open>lower\<close>\<close>
  "category_lower p =
     (case dget_default p ''Category'' (JStr []) of
        JStr s \<Rightarrow> Inr (lower s)
      | _ \<Rightarrow> Inl AttributeError)"

fun get_players_by_category :: "player list \<Rightarrow> string \<Rightarrow> error + player list" where
  "get_players_by_category [] category = Inr []"
| "get_players_by_category (p # players) category =
     ebind (category_lower p) (\<lambda>c.
     ebind (get_players_by_category players category) (\<lambda>rest.
       Inr (if c = lower category \<and> present p ''Value'' then p # rest else rest)))"

definition numbered :: "player list \<Rightarrow> error + ustring list" where
  \<comment> \<open>\<open>[format_player_info(p, i+1) for i, p in enumerate(ps)]\<close>\<close>
  "numbered ps = emap (\<lambda>(i, p). format_player_info p (Some (int i + 1))) (enumerate 0 ps)"

definition len_text :: "'a list \<Rightarrow> ustring" where
  "len_text xs = ustr (str_int (int (length xs)))"

definition help_message :: "player list \<Rightarrow> ustring" where
  "help_message players =
     [0x1F914] @ ustr '' I didn't understand your query. Try asking about:'' @ nl
     @ [0x2022] @ ustr '' **'player list'** - to see all players'' @ nl
     @ [0x2022] @ ustr '' **'batsman'**, **'bowler'**, or **'all-rounder'** - to filter by category'' @ nl
     @ [0x2022] @ ustr '' **'best player'** - to see the best and worst players'' @ nl
     @ [0x2022] @ ustr '' **A number (1-'' @ len_text players
     @ ustr '')** - to get details about a specific player''"

definition player_details :: "player \<Rightarrow> error + ustring" where
  "player_details p =
     (let points = dget_default p ''Player Points'' (JStr ''N/A'')
      in ebind (value_text p) (\<lambda>value.
         ebind (getitem p ''Name'') (\<lambda>name.
         ebind (getitem p ''University'') (\<lambda>university.
         ebind (getitem p ''Category'') (\<lambda>category.
           Inr ([0x1F3CF] @ ustr '' **Player Details:**'' @ nl
                @ ustr ''**Name:** '' @ py_str name @ nl
                @ ustr ''**University:** '' @ py_str university @ nl
                @ ustr ''**Category:** '' @ py_str category @ nl
                @ ustr ''**Value:** '' @ value @ nl
                @ ustr ''**Points:** '' @ py_str points))))))"

definition best_worst :: "player list \<Rightarrow> error + ustring" where
  "best_worst valid_players =
     (let key = (\<lambda>p. dget_default p ''Player Points'' (JInt 0))
      in ebind (py_max valid_players key) (\<lambda>best_player.
         ebind (py_min valid_players key) (\<lambda>worst_player.
         ebind (getitem best_player ''Name'') (\<lambda>best_name.
         ebind (getitem best_player ''Player Points'') (\<lambda>best_points.
         ebind (getitem worst_player ''Name'') (\<lambda>worst_name.
         ebind (getitem worst_player ''Player Points'') (\<lambda>worst_points.
           Inr ([0x1F3C6] @ ustr '' **Best Player:** '' @ py_str best_name @ ustr '' - ''
                @ py_str best_points @ ustr '' points'' @ nl
                @ [0x1F4C9] @ ustr '' **Worst Player:** '' @ py_str worst_name @ ustr '' - ''
                @ py_str worst_points @ ustr '' points''))))))))"

definition category_listing :: "player list \<Rightarrow> string \<Rightarrow> error + ustring" where
  "category_listing players best_match =
     ebind (get_players_by_category players best_match) (\<lambda>category_players.
       if category_players = []
       then Inr ([0x274C] @ ustr '' No '' @ ustr best_match @ ustr ''s found.'')
       else ebind (numbered category_players) (\<lambda>response.
         Inr ([0x1F3CF] @ ustr '' **'' @ ustr (title best_match) @ ustr ''s (''
              @ len_text category_players @ ustr '' found):**'' @ nl @ join nl response)))"

definition process_query :: "nat \<Rightarrow> extract_one \<Rightarrow> player list \<Rightarrow> string \<Rightarrow> error + ustring" where
  "process_query max_str_digits extractOne players user_input =
     (if strip user_input = [] then Inr (ustr ''Please enter a query.'')
      else
        let user_input_lower = strip (lower user_input) in
        if contains ''player list'' user_input_lower then
          (let valid_players = filter (\<lambda>p. present p ''Value'') players in
           if valid_players = [] then Inr (ustr ''No players found with valid values.'')
           else ebind (numbered valid_players) (\<lambda>response.
             Inr ([0x1F4CB] @ ustr '' **Player List ('' @ len_text valid_players
                  @ ustr '' players):**'' @ nl @ join nl response)))
        else if isdigit user_input_lower then
          ebind (py_int max_str_digits user_input_lower) (\<lambda>n.
            let index = n - 1 in
            if 0 \<le> index \<and> index < int (length players)
            then player_details (players ! nat index)
            else Inr ([0x274C] @ ustr '' Invalid player index. Please enter a number between 1 and ''
                      @ len_text players @ ustr ''.''))
        else if contains ''best player'' user_input_lower \<or> contains ''worst player'' user_input_lower then
          (let valid_players = filter (\<lambda>p. present p ''Player Points'') players in
           if valid_players = [] then Inr (ustr ''No players found with valid points data.'')
           else best_worst valid_players)
        else
          ebind (get_best_match extractOne user_input_lower STANDARD_TERMS 60) (\<lambda>best_match.
            if best_match \<in> Some ` {''batsman'', ''bowler'', ''all-rounder''}
            then category_listing players (the best_match)
            else Inr (help_message players)))"

section \<open>The roster store\<close>

text \<open>
  \<open>load_players\<close> opens \<open>data.json\<close> and parses it, inside one \<open>try\<close>. Opening the
  file and the parser of the \<open>json\<close> library are parameters, and each of them gives
  its result or raises. The handlers catch \<open>FileNotFoundError\<close> and
  \<open>JSONDecodeError\<close>; any other exception leaves the function. The parser gives
  whatever document the file holds, a list of records or something else, and the
  function returns it as it is. The second component of the result is the list of the
  messages shown with \<open>st.error\<close>.
\<close>

datatype load_exception = FileNotFoundError | JSONDecodeError | OtherException

datatype document = Records "player list" | OtherDocument

type_synonym file_system = "string \<Rightarrow> load_exception + string"
type_synonym json_load = "string \<Rightarrow> load_exception + document"

definition load_players :: "file_system \<Rightarrow> json_load \<Rightarrow> load_exception + document \<times> ustring list" where
  "load_players open_file json_load =
     (case (case open_file ''data.json'' of Inl e \<Rightarrow> Inl e | Inr file \<Rightarrow> json_load file) of
        Inr data \<Rightarrow> Inr (data, [])
      | Inl FileNotFoundError \<Rightarrow>
          Inr (Records [],
               [[0x274C] @ ustr '' data.json file not found. Please make sure the file exists in the same directory.''])
      | Inl JSONDecodeError \<Rightarrow>
          Inr (Records [], [[0x274C] @ ustr '' Invalid JSON format in data.json file.''])
      | Inl e \<Rightarrow> Inl e)"

section \<open>Notions used in the statements\<close>

definition valued_info :: "player \<Rightarrow> ustring" where
  \<comment> \<open>the line of a record that has its text fields and a value: name, university,
      category and the value as an amount\<close>
  "valued_info p =
     py_str (the (p ''Name'')) @ ustr '' - '' @ py_str (the (p ''University'')) @ ustr '' - ''
     @ py_str (the (p ''Category'')) @ ustr '' - $'' @ py_str (the (p ''Value''))"

definition points_of :: "player \<Rightarrow> float_value" where
  \<comment> \<open>the value of the points of a record whose points are a number\<close>
  "points_of p = (case p ''Player Points'' of
                    Some v \<Rightarrow> (case number_of v of Some x \<Rightarrow> x | None \<Rightarrow> NaN)
                  | None \<Rightarrow> NaN)"

section \<open>Sample data\<close>

text \<open>Records of a roster, and two instances of the fuzzy matcher.\<close>

definition unscored_player :: player where
  "unscored_player =
     [''Name'' \<mapsto> JStr ''A'', ''University'' \<mapsto> JStr ''U'', ''Category'' \<mapsto> JStr ''Batsman'',
      ''Value'' \<mapsto> JNull, ''Player Points'' \<mapsto> JNull]"

definition valued_bowler :: player where
  "valued_bowler =
     [''Name'' \<mapsto> JStr ''B'', ''University'' \<mapsto> JStr ''V'', ''Category'' \<mapsto> JStr ''BOWLER'',
      ''Value'' \<mapsto> JInt 120, ''Player Points'' \<mapsto> JInt 7]"

definition high_scorer :: player where
  "high_scorer =
     [''Name'' \<mapsto> JStr ''C'', ''University'' \<mapsto> JStr ''W'', ''Category'' \<mapsto> JStr ''All-rounder'',
      ''Player Points'' \<mapsto> JInt 9]"

definition valued_batsman :: player where
  "valued_batsman =
     [''Name'' \<mapsto> JStr ''D'', ''University'' \<mapsto> JStr ''X'', ''Category'' \<mapsto> JStr ''Batsman'',
      ''Value'' \<mapsto> JFloat (Finite (17 / 2)) ''8.5'', ''Player Points'' \<mapsto> JFloat (Finite 9) ''9.0'']"

definition nan_scorer :: player where
  "nan_scorer =
     [''Name'' \<mapsto> JStr ''N'', ''University'' \<mapsto> JStr ''Y'', ''Category'' \<mapsto> JStr ''Bowler'',
      ''Value'' \<mapsto> JInt 50, ''Player Points'' \<mapsto> JFloat NaN ''nan'']"

definition no_match :: extract_one where
  "no_match query choices = Some (''batsman'', 0)"

definition near_list :: extract_one where
  "near_list query choices = Some (''player list'', 95)"

section \<open>Facts about the text operations\<close>

lemma of_char_lt_256: "(of_char c :: nat) < 256"
proof -
  have "(of_char c :: nat) mod 256 < 256" by simp
  then show ?thesis by (simp only: of_char_mod_256)
qed

lemma is_space_lower_char: "is_space (lower_char c) = is_space c"
  using of_char_lt_256 [of c]
  by (auto simp: is_space_def lower_char_def Let_def)

lemma dropWhile_space_lower: "dropWhile is_space (lower s) = lower (dropWhile is_space s)"
  by (induction s) (simp_all add: lower_def is_space_lower_char)

lemma lower_rev: "lower (rev s) = rev (lower s)"
  by (simp add: lower_def rev_map)

lemma strip_lower: "strip (lower s) = lower (strip s)"
  by (simp add: strip_def dropWhile_space_lower lower_rev [symmetric])

lemma lower_Nil_iff: "lower s = [] \<longleftrightarrow> s = []"
  by (simp add: lower_def)

lemma contains_iff: "contains sub s \<longleftrightarrow> (\<exists>ps ss. s = ps @ sub @ ss)"
proof (induction s)
  case Nil
  then show ?case by auto
next
  case (Cons c cs)
  show ?case
  proof
    assume "contains sub (c # cs)"
    then consider "prefix sub (c # cs)" | "contains sub cs" by auto
    then show "\<exists>ps ss. c # cs = ps @ sub @ ss"
    proof cases
      case 1
      then obtain ss where "c # cs = sub @ ss" by (auto simp: prefix_def)
      then have "c # cs = [] @ sub @ ss" by simp
      then show ?thesis by blast
    next
      case 2
      with Cons obtain ps ss where "cs = ps @ sub @ ss" by blast
      then have "c # cs = (c # ps) @ sub @ ss" by simp
      then show ?thesis by blast
    qed
  next
    assume "\<exists>ps ss. c # cs = ps @ sub @ ss"
    then obtain ps ss where eq: "c # cs = ps @ sub @ ss" by blast
    show "contains sub (c # cs)"
    proof (cases ps)
      case Nil
      with eq have "prefix sub (c # cs)" by (simp add: prefix_def)
      then show ?thesis by simp
    next
      case (Cons p ps')
      with eq have "cs = ps' @ sub @ ss" by simp
      with Cons.IH show ?thesis by auto
    qed
  qed
qed

lemma dropWhile_keeps:
  assumes "sub \<noteq> []" "\<not> P (hd sub)"
  shows "\<exists>ps'. dropWhile P (ps @ sub @ ss) = ps' @ sub @ ss"
proof (induction ps)
  case Nil
  from assms obtain x xs where "sub = x # xs" by (cases sub) auto
  with assms have "dropWhile P ([] @ sub @ ss) = [] @ sub @ ss" by simp
  then show ?case by blast
next
  case (Cons p ps)
  show ?case
  proof (cases "P p")
    case True
    with Cons show ?thesis by simp
  next
    case False
    then have "dropWhile P ((p # ps) @ sub @ ss) = (p # ps) @ sub @ ss" by simp
    then show ?thesis by blast
  qed
qed

lemma contains_strip:
  assumes "contains sub s" "sub \<noteq> []" "\<not> is_space (hd sub)" "\<not> is_space (last sub)"
  shows "contains sub (strip s)"
proof -
  from assms(1) obtain ps ss where s: "s = ps @ sub @ ss" by (auto simp: contains_iff)
  from dropWhile_keeps [of sub is_space ps ss] assms(2,3) obtain ps' where
    d1: "dropWhile is_space s = ps' @ sub @ ss" unfolding s by blast
  have "rev sub \<noteq> []" "\<not> is_space (hd (rev sub))"
    using assms(2,4) by (simp_all add: hd_rev)
  from dropWhile_keeps [of "rev sub" is_space "rev ss" "rev ps'"] this obtain ss' where
    "dropWhile is_space (rev ss @ rev sub @ rev ps') = ss' @ rev sub @ rev ps'" by blast
  then have "strip s = ps' @ sub @ rev ss'"
    by (simp add: strip_def d1)
  then show ?thesis by (auto simp: contains_iff)
qed

lemma contains_not_Nil: "contains sub s \<Longrightarrow> sub \<noteq> [] \<Longrightarrow> s \<noteq> []"
  by (cases s) auto

lemma contains_not_isdigit:
  assumes "contains sub s" "c \<in> set sub" "\<not> is_digit_char c"
  shows "\<not> isdigit s"
proof -
  from assms(1) obtain ps ss where "s = ps @ sub @ ss" by (auto simp: contains_iff)
  with assms(2) have "c \<in> set s" by simp
  with assms(3) show ?thesis by (auto simp: isdigit_def list_all_iff)
qed

lemma strip_Nil_lower: "strip (lower s) = [] \<longleftrightarrow> strip s = []"
  by (simp add: strip_lower lower_Nil_iff)

section \<open>The fuzzy rule and the help message\<close>

lemma fuzzy_rule_reached:
  assumes "strip user_input \<noteq> []"
    and "\<not> contains ''player list'' (strip (lower user_input))"
    and "\<not> isdigit (strip (lower user_input))"
    and "\<not> contains ''best player'' (strip (lower user_input))"
    and "\<not> contains ''worst player'' (strip (lower user_input))"
  shows "process_query max_str_digits extractOne players user_input =
    ebind (get_best_match extractOne (strip (lower user_input)) STANDARD_TERMS 60) (\<lambda>best_match.
            if best_match \<in> Some ` {''batsman'', ''bowler'', ''all-rounder''}
            then category_listing players (the best_match)
            else Inr (help_message players))"
  using assms by (simp add: process_query_def Let_def)

section \<open>Decimal text of a number\<close>

lemma of_char_digit_char: "d < 10 \<Longrightarrow> (of_char (digit_char d) :: nat) = 48 + d"
  by (simp add: digit_char_def)

lemma is_decimal_digit_char: "d < 10 \<Longrightarrow> is_decimal_char (digit_char d)"
  by (simp add: is_decimal_char_def of_char_digit_char)

lemma digit_value_digit_char: "d < 10 \<Longrightarrow> digit_value (digit_char d) = d"
  by (simp add: digit_value_def of_char_digit_char)

lemma digits_of_decimal: "list_all is_decimal_char (digits_of n)"
proof (induction n rule: digits_of.induct)
  case (1 n)
  show ?case
  proof (cases "n < 10")
    case True
    then show ?thesis by (simp add: digits_of.simps [of n] is_decimal_digit_char)
  next
    case False
    with 1 show ?thesis by (simp add: digits_of.simps [of n] is_decimal_digit_char)
  qed
qed

lemma digits_of_not_Nil: "digits_of n \<noteq> []"
  by (simp add: digits_of.simps [of n])

lemma decimal_value_snoc: "decimal_value (s @ [c]) = 10 * decimal_value s + digit_value c"
  by (simp add: decimal_value_def)

lemma decimal_value_digits_of: "decimal_value (digits_of n) = n"
proof (induction n rule: digits_of.induct)
  case (1 n)
  show ?case
  proof (cases "n < 10")
    case True
    then show ?thesis
      by (simp add: digits_of.simps [of n] decimal_value_def digit_value_digit_char)
  next
    case False
    with 1 have "decimal_value (digits_of (n div 10)) = n div 10" by simp
    with False show ?thesis
      by (simp add: digits_of.simps [of n] decimal_value_snoc digit_value_digit_char)
  qed
qed

lemma length_digits_of: "n < 10 ^ k \<Longrightarrow> 0 < k \<Longrightarrow> length (digits_of n) \<le> k"
proof (induction n arbitrary: k rule: digits_of.induct)
  case (1 n)
  show ?case
  proof (cases "n < 10")
    case True
    with "1.prems" show ?thesis by (simp add: digits_of.simps [of n])
  next
    case False
    from "1.prems" obtain j where k: "k = Suc j" by (cases k) auto
    with False "1.prems" have "0 < j" by (cases j) auto
    moreover from "1.prems" k have "n div 10 < 10 ^ j" by (simp add: less_mult_imp_div_less mult.commute)
    ultimately have "length (digits_of (n div 10)) \<le> j" using "1.IH" False by simp
    with False k show ?thesis by (simp add: digits_of.simps [of n])
  qed
qed

lemma decimal_is_digit: "is_decimal_char c \<Longrightarrow> is_digit_char c"
  by (simp add: is_decimal_char_def is_digit_char_def Let_def)

lemma decimal_not_space: "is_decimal_char c \<Longrightarrow> \<not> is_space c"
  by (auto simp: is_decimal_char_def is_space_def Let_def)

lemma decimal_lower_char: "is_decimal_char c \<Longrightarrow> lower_char c = c"
  by (auto simp: is_decimal_char_def lower_char_def Let_def)

lemma decimal_lower: "list_all is_decimal_char s \<Longrightarrow> lower s = s"
  by (induction s) (simp_all add: lower_def decimal_lower_char)

lemma no_space_strip: "list_all (\<lambda>c. \<not> is_space c) s \<Longrightarrow> strip s = s"
proof -
  assume a: "list_all (\<lambda>c. \<not> is_space c) s"
  then have "dropWhile is_space s = s" by (cases s) simp_all
  moreover from a have "dropWhile is_space (rev s) = rev s"
    by (cases "rev s") (auto simp: list_all_iff dest: arg_cong [where f = set])
  ultimately show ?thesis by (simp add: strip_def)
qed

lemma decimal_strip: "list_all is_decimal_char s \<Longrightarrow> strip s = s"
  by (rule no_space_strip) (auto simp: list_all_iff decimal_not_space)

lemma decimal_isdigit: "s \<noteq> [] \<Longrightarrow> list_all is_decimal_char s \<Longrightarrow> isdigit s"
  by (auto simp: isdigit_def list_all_iff decimal_is_digit)

section \<open>The numeric rule\<close>

lemma isdigit_not_player_list: "isdigit s \<Longrightarrow> \<not> contains ''player list'' s"
  using contains_not_isdigit [of "''player list''" s "CHR ''p''"]
  by (auto simp: is_digit_char_def)

lemma numeric_rule_reached:
  assumes "isdigit (strip (lower user_input))"
  shows "process_query max_str_digits extractOne players user_input =
    ebind (py_int max_str_digits (strip (lower user_input))) (\<lambda>n.
            let index = n - 1 in
            if 0 \<le> index \<and> index < int (length players)
            then player_details (players ! nat index)
            else Inr ([0x274C] @ ustr '' Invalid player index. Please enter a number between 1 and ''
                      @ len_text players @ ustr ''.''))"
proof -
  from assms have "strip (lower user_input) \<noteq> []" by (auto simp: isdigit_def)
  then have "strip user_input \<noteq> []" by (simp add: strip_Nil_lower)
  with assms isdigit_not_player_list [OF assms] show ?thesis
    by (simp add: process_query_def Let_def)
qed

lemma numeric_query_text:
  "strip (lower (digits_of n)) = digits_of n" "isdigit (digits_of n)"
  by (simp_all add: decimal_lower decimal_strip decimal_isdigit digits_of_decimal digits_of_not_Nil)

lemma py_int_digits_of:
  assumes "n < 2 ^ 64"
  shows "py_int max_str_digits (digits_of n) = Inr (int n)"
proof -
  have "(2::nat) ^ 64 < 10 ^ 20" by simp
  with assms have "n < 10 ^ 20" by simp
  then have "length (digits_of n) \<le> 20" by (rule length_digits_of) simp
  then show ?thesis
    by (simp add: py_int_def digits_of_decimal digits_of_not_Nil decimal_value_digits_of
        MAX_STR_DIGITS_THRESHOLD_def)
qed

lemma str_int_nat: "str_int (int n) = digits_of n"
  by (simp add: str_int_def)

lemma str_int_succ_length: "str_int (int (length xs) + 1) = digits_of (Suc (length xs))"
  using str_int_nat [of "Suc (length xs)"] by (simp add: add.commute)

lemma digits_of_small: "digits_of 0 = ''0''" "digits_of 1 = ''1''" "digits_of 2 = ''2''"
  by code_simp+

section \<open>Numbered listings\<close>

lemma present_iff: "present p k \<longleftrightarrow> (\<exists>v. p k = Some v \<and> v \<noteq> JNull)"
  by (auto simp: present_def dget_def split: option.splits)

lemma ustr_append: "ustr (a @ b) = ustr a @ ustr b"
  by (simp add: ustr_def)

lemma format_valued_player:
  assumes "present p ''Value''" "p ''Name'' \<noteq> None" "p ''University'' \<noteq> None" "p ''Category'' \<noteq> None"
  shows "format_player_info p (Some i) = Inr (ustr (str_int i) @ ustr ''. '' @ valued_info p)"
proof -
  from assms(1) obtain v where "p ''Value'' = Some v" by (auto simp: present_iff)
  with assms show ?thesis
    by (auto simp: format_player_info_def value_text_def getitem_def ebind_def valued_info_def
        ustr_def)
qed

lemma emap_enumerate_valued:
  assumes "\<forall>p \<in> set ps. present p ''Value'' \<and> p ''Name'' \<noteq> None \<and> p ''University'' \<noteq> None
      \<and> p ''Category'' \<noteq> None"
  shows "emap (\<lambda>(i, p). format_player_info p (Some (int i + 1))) (enumerate n ps) =
    Inr (map (\<lambda>(i, p). ustr (str_int (int i + 1)) @ ustr ''. '' @ valued_info p) (enumerate n ps))"
  using assms
proof (induction ps arbitrary: n)
  case Nil
  then show ?case by simp
next
  case (Cons p ps)
  then have "format_player_info p (Some (int n + 1)) =
      Inr (ustr (str_int (int n + 1)) @ ustr ''. '' @ valued_info p)"
    by (simp add: format_valued_player)
  moreover from Cons have "emap (\<lambda>(i, p). format_player_info p (Some (int i + 1))) (enumerate (Suc n) ps) =
    Inr (map (\<lambda>(i, p). ustr (str_int (int i + 1)) @ ustr ''. '' @ valued_info p) (enumerate (Suc n) ps))"
    by simp
  ultimately show ?case by (simp add: ebind_def)
qed

lemma numbered_valued:
  assumes "\<forall>p \<in> set ps. present p ''Value'' \<and> p ''Name'' \<noteq> None \<and> p ''University'' \<noteq> None
      \<and> p ''Category'' \<noteq> None"
  shows "\<exists>lines. numbered ps = Inr lines \<and> length lines = length ps
    \<and> (\<forall>k < length ps. lines ! k = ustr (str_int (int k + 1)) @ ustr ''. '' @ valued_info (ps ! k))"
proof -
  let ?lines = "map (\<lambda>(i, p). ustr (str_int (int i + 1)) @ ustr ''. '' @ valued_info p) (enumerate 0 ps)"
  have "numbered ps = Inr ?lines"
    unfolding numbered_def by (rule emap_enumerate_valued [OF assms])
  moreover have "length ?lines = length ps" by simp
  moreover have "\<forall>k < length ps. ?lines ! k = ustr (str_int (int k + 1)) @ ustr ''. '' @ valued_info (ps ! k)"
    by (simp add: nth_enumerate_eq)
  ultimately show ?thesis by blast
qed

lemma numbered_closed:
  assumes "\<forall>p \<in> set ps. present p ''Value'' \<and> p ''Name'' \<noteq> None \<and> p ''University'' \<noteq> None
      \<and> p ''Category'' \<noteq> None"
  shows "numbered ps =
    Inr (map (\<lambda>k. ustr (str_int (int k + 1)) @ ustr ''. '' @ valued_info (ps ! k)) [0..<length ps])"
proof -
  from numbered_valued [OF assms] obtain lines where
    l: "numbered ps = Inr lines" "length lines = length ps"
      "\<forall>k < length ps. lines ! k = ustr (str_int (int k + 1)) @ ustr ''. '' @ valued_info (ps ! k)"
    by blast
  have "lines = map (\<lambda>k. ustr (str_int (int k + 1)) @ ustr ''. '' @ valued_info (ps ! k)) [0..<length ps]"
    by (rule nth_equalityI) (simp_all add: l(2,3))
  with l(1) show ?thesis by simp
qed

lemma join_concat: "xs \<noteq> [] \<Longrightarrow> sep @ join sep xs = concat (map (\<lambda>x. sep @ x) xs)"
  by (induction sep xs rule: join.induct) simp_all

lemma list_rule_reached:
  assumes "contains ''player list'' (lower user_input)"
  shows "process_query max_str_digits extractOne players user_input =
    (let valid_players = filter (\<lambda>p. present p ''Value'') players in
           if valid_players = [] then Inr (ustr ''No players found with valid values.'')
           else ebind (numbered valid_players) (\<lambda>response.
             Inr ([0x1F4CB] @ ustr '' **Player List ('' @ len_text valid_players
                  @ ustr '' players):**'' @ nl @ join nl response)))"
proof -
  have c: "contains ''player list'' (strip (lower user_input))"
    by (rule contains_strip [OF assms]) (simp_all add: is_space_def)
  then have "strip (lower user_input) \<noteq> []" by (rule contains_not_Nil) simp
  then have "strip user_input \<noteq> []" by (simp add: strip_Nil_lower)
  with c show ?thesis by (simp add: process_query_def Let_def)
qed

section \<open>The scan for the extremum\<close>

lemma strip_infix: "\<exists>before after. s = before @ strip s @ after"
proof -
  let ?d = "dropWhile is_space s"
  have "s = takeWhile is_space s @ ?d" by simp
  moreover have "?d = strip s @ rev (takeWhile is_space (rev ?d))"
  proof -
    have "?d = rev (rev ?d)" by simp
    also have "\<dots> = rev (takeWhile is_space (rev ?d) @ dropWhile is_space (rev ?d))"
      by (simp only: takeWhile_dropWhile_id)
    also have "\<dots> = rev (dropWhile is_space (rev ?d)) @ rev (takeWhile is_space (rev ?d))"
      by (simp only: rev_append)
    finally show ?thesis by (simp only: strip_def)
  qed
  ultimately have "s = takeWhile is_space s @ strip s @ rev (takeWhile is_space (rev ?d))"
    by metis
  then show ?thesis by blast
qed

lemma contains_strip_imp: "contains sub (strip s) \<Longrightarrow> contains sub s"
proof -
  assume "contains sub (strip s)"
  then obtain ps ss where 1: "strip s = ps @ sub @ ss" by (auto simp: contains_iff)
  obtain before after where 2: "s = before @ strip s @ after" using strip_infix by blast
  have "s = (before @ ps) @ sub @ (ss @ after)" by (subst 2) (simp add: 1)
  then show ?thesis unfolding contains_iff by blast
qed

lemma float_less_irrefl: "\<not> float_less x x"
  by (cases x) simp_all

lemma float_less_trans: "float_less a b \<Longrightarrow> float_less b c \<Longrightarrow> float_less a c"
  by (cases a; cases b; cases c) simp_all

lemma float_less_negtrans:
  "c \<noteq> NaN \<Longrightarrow> float_less a b \<Longrightarrow> \<not> float_less a c \<Longrightarrow> float_less c b"
  by (cases a; cases b; cases c) simp_all

lemma float_greater_negtrans:
  "c \<noteq> NaN \<Longrightarrow> float_less b a \<Longrightarrow> \<not> float_less c a \<Longrightarrow> float_less b c"
  by (cases a; cases b; cases c) simp_all

lemma not_float_less_le: "x \<noteq> NaN \<Longrightarrow> y \<noteq> NaN \<Longrightarrow> \<not> float_less x y \<Longrightarrow> float_le y x"
  by (cases x; cases y) (auto simp: float_le_def)

lemma extremum_first:
  fixes g :: "player \<Rightarrow> 'a" and lt :: "'a \<Rightarrow> 'a \<Rightarrow> bool"
  assumes irrefl: "\<And>a. \<not> lt a a"
    and trans: "\<And>a b c. lt a b \<Longrightarrow> lt b c \<Longrightarrow> lt a c"
    and negtrans: "\<And>a b c. ok c \<Longrightarrow> lt a b \<Longrightarrow> \<not> lt a c \<Longrightarrow> lt c b"
    and "\<forall>p \<in> set (pre @ ps). ok (g p)"
    and "\<forall>p \<in> set (pre @ ps). \<forall>q \<in> set (pre @ ps). beyond (key p) (key q) = Inr (lt (g q) (g p))"
    and "i < length pre" and "cur = pre ! i"
    and "\<forall>k < length pre. \<not> lt (g cur) (g (pre ! k))"
    and "\<forall>k < i. lt (g (pre ! k)) (g cur)"
  shows "\<exists>j < length (pre @ ps). extremum beyond key cur ps = Inr ((pre @ ps) ! j)
    \<and> (\<forall>k < length (pre @ ps). \<not> lt (g ((pre @ ps) ! j)) (g ((pre @ ps) ! k)))
    \<and> (\<forall>k < j. lt (g ((pre @ ps) ! k)) (g ((pre @ ps) ! j)))"
  using assms(4-)
proof (induction ps arbitrary: pre cur i)
  case Nil
  then show ?case by auto
next
  case (Cons p ps)
  have cur_in: "cur \<in> set (pre @ p # ps)" using Cons.prems(3,4) by simp
  have "\<forall>q \<in> set (pre @ p # ps). beyond (key p) (key q) = Inr (lt (g q) (g p))"
    using Cons.prems(2) by simp
  with cur_in have b: "beyond (key p) (key cur) = Inr (lt (g cur) (g p))"
    by blast
  have ok: "\<forall>a \<in> set ((pre @ [p]) @ ps). ok (g a)"
    using Cons.prems(1) by simp
  have okpre: "ok (g (pre ! k))" if "k < length pre" for k
    using Cons.prems(1) that by simp
  have all: "\<forall>a \<in> set ((pre @ [p]) @ ps). \<forall>q \<in> set ((pre @ [p]) @ ps).
      beyond (key a) (key q) = Inr (lt (g q) (g a))"
    using Cons.prems(2) by simp
  show ?case
  proof (cases "lt (g cur) (g p)")
    case True
    have 1: "length pre < length (pre @ [p])" by simp
    have 2: "p = (pre @ [p]) ! length pre" by simp
    have 4: "\<forall>k < length pre. lt (g ((pre @ [p]) ! k)) (g p)"
    proof (intro allI impI)
      fix k assume k: "k < length pre"
      with Cons.prems(5) have "\<not> lt (g cur) (g (pre ! k))" by simp
      from negtrans [OF okpre [OF k] True this] k
      show "lt (g ((pre @ [p]) ! k)) (g p)" by (simp add: nth_append)
    qed
    have 3: "\<forall>k < length (pre @ [p]). \<not> lt (g p) (g ((pre @ [p]) ! k))"
    proof (intro allI impI)
      fix k assume k: "k < length (pre @ [p])"
      show "\<not> lt (g p) (g ((pre @ [p]) ! k))"
      proof (cases "k < length pre")
        case True
        with 4 have "lt (g ((pre @ [p]) ! k)) (g p)" by simp
        then show ?thesis using trans irrefl by blast
      next
        case False
        with k have "k = length pre" by simp
        then show ?thesis by (simp add: irrefl)
      qed
    qed
    from Cons.IH [OF ok all 1 2 3 4] True b show ?thesis by (simp add: ebind_def)
  next
    case False
    have 1: "i < length (pre @ [p])" using Cons.prems(3) by simp
    have 2: "cur = (pre @ [p]) ! i" using Cons.prems(3,4) by (simp add: nth_append)
    have 3: "\<forall>k < length (pre @ [p]). \<not> lt (g cur) (g ((pre @ [p]) ! k))"
      using Cons.prems(5) False by (auto simp: nth_append less_Suc_eq)
    have 4: "\<forall>k < i. lt (g ((pre @ [p]) ! k)) (g cur)"
      using Cons.prems(3,6) by (auto simp: nth_append)
    from Cons.IH [OF ok all 1 2 3 4] False b show ?thesis by (simp add: ebind_def)
  qed
qed

lemma extremum_of_list:
  fixes g :: "player \<Rightarrow> 'a" and lt :: "'a \<Rightarrow> 'a \<Rightarrow> bool"
  assumes "\<And>a. \<not> lt a a"
    and "\<And>a b c. lt a b \<Longrightarrow> lt b c \<Longrightarrow> lt a c"
    and "\<And>a b c. ok c \<Longrightarrow> lt a b \<Longrightarrow> \<not> lt a c \<Longrightarrow> lt c b"
    and "xs \<noteq> []"
    and "\<forall>p \<in> set xs. ok (g p)"
    and "\<forall>p \<in> set xs. \<forall>q \<in> set xs. beyond (key p) (key q) = Inr (lt (g q) (g p))"
  shows "\<exists>j < length xs. extremum beyond key (hd xs) (tl xs) = Inr (xs ! j)
    \<and> (\<forall>k < length xs. \<not> lt (g (xs ! j)) (g (xs ! k)))
    \<and> (\<forall>k < j. lt (g (xs ! k)) (g (xs ! j)))"
proof -
  from assms(4) obtain x rest where xs: "xs = x # rest" by (cases xs) auto
  have "\<exists>j < length ([x] @ rest). extremum beyond key x rest = Inr (([x] @ rest) ! j)
    \<and> (\<forall>k < length ([x] @ rest). \<not> lt (g (([x] @ rest) ! j)) (g (([x] @ rest) ! k)))
    \<and> (\<forall>k < j. lt (g (([x] @ rest) ! k)) (g (([x] @ rest) ! j)))"
  proof (rule extremum_first [where i = 0 and ok = ok])
    show "\<not> lt a a" for a by (rule assms(1))
    show "lt a b \<Longrightarrow> lt b c \<Longrightarrow> lt a c" for a b c by (rule assms(2))
    show "ok c \<Longrightarrow> lt a b \<Longrightarrow> \<not> lt a c \<Longrightarrow> lt c b" for a b c by (rule assms(3))
    show "\<forall>p \<in> set ([x] @ rest). ok (g p)" using assms(5) xs by simp
    show "\<forall>p \<in> set ([x] @ rest). \<forall>q \<in> set ([x] @ rest).
        beyond (key p) (key q) = Inr (lt (g q) (g p))" using assms(6) xs by simp
    show "0 < length [x]" by simp
    show "x = [x] ! 0" by simp
    show "\<forall>k < length [x]. \<not> lt (g x) (g ([x] ! k))" by (simp add: assms(1))
    show "\<forall>k < 0. lt (g ([x] ! k)) (g x)" by simp
  qed
  then show ?thesis by (simp add: xs)
qed

lemma best_worst_rule_reached:
  assumes "contains ''best player'' (lower user_input) \<or> contains ''worst player'' (lower user_input)"
    and "\<not> contains ''player list'' (lower user_input)"
  shows "process_query max_str_digits extractOne players user_input =
    (let valid_players = filter (\<lambda>p. present p ''Player Points'') players in
           if valid_players = [] then Inr (ustr ''No players found with valid points data.'')
           else best_worst valid_players)"
proof -
  let ?u = "strip (lower user_input)"
  have c: "contains ''best player'' ?u \<or> contains ''worst player'' ?u"
    using assms(1) contains_strip [of "''best player''" "lower user_input"]
      contains_strip [of "''worst player''" "lower user_input"]
    by (auto simp: is_space_def)
  have "\<not> is_digit_char CHR ''b''" "\<not> is_digit_char CHR ''w''"
    by (simp_all add: is_digit_char_def)
  with c have d: "\<not> isdigit ?u"
    using contains_not_isdigit [of "''best player''" ?u "CHR ''b''"]
      contains_not_isdigit [of "''worst player''" ?u "CHR ''w''"]
    by auto
  from c have "?u \<noteq> []" by (auto dest: contains_not_Nil)
  then have n: "strip user_input \<noteq> []" by (simp add: strip_Nil_lower)
  have l: "\<not> contains ''player list'' ?u"
    using assms(2) contains_strip_imp by blast
  from c d n l show ?thesis by (simp add: process_query_def Let_def)
qed

lemma py_less_numbers:
  "number_of a = Some x \<Longrightarrow> number_of b = Some y \<Longrightarrow> py_less a b = Inr (float_less x y)"
  by (cases a; cases b) (simp_all add: py_less_def number_of_def)

lemma best_worst_scored:
  assumes "valid \<noteq> []"
    and "\<forall>p \<in> set valid.
           (\<exists>v x. p ''Player Points'' = Some v \<and> number_of v = Some x \<and> x \<noteq> NaN)
           \<and> p ''Name'' \<noteq> None"
  shows "\<exists>i < length valid. \<exists>j < length valid.
      (\<forall>k < length valid. float_le (points_of (valid ! k)) (points_of (valid ! i)))
    \<and> (\<forall>k < i. float_less (points_of (valid ! k)) (points_of (valid ! i)))
    \<and> (\<forall>k < length valid. float_le (points_of (valid ! j)) (points_of (valid ! k)))
    \<and> (\<forall>k < j. float_less (points_of (valid ! j)) (points_of (valid ! k)))
    \<and> best_worst valid =
        Inr ([0x1F3C6] @ ustr '' **Best Player:** '' @ py_str (the ((valid ! i) ''Name''))
             @ ustr '' - '' @ py_str (the ((valid ! i) ''Player Points'')) @ ustr '' points'' @ [10]
             @ [0x1F4C9] @ ustr '' **Worst Player:** '' @ py_str (the ((valid ! j) ''Name''))
             @ ustr '' - '' @ py_str (the ((valid ! j) ''Player Points'')) @ ustr '' points'')"
proof -
  let ?key = "\<lambda>p. dget_default p ''Player Points'' (JInt 0)"
  have num: "number_of (?key p) = Some (points_of p)" "points_of p \<noteq> NaN"
    if "p \<in> set valid" for p
    using that assms(2) by (auto simp: dget_default_def points_of_def)
  have greater: "\<forall>p \<in> set valid. \<forall>q \<in> set valid.
      py_greater (?key p) (?key q) = Inr (float_less (points_of q) (points_of p))"
    by (simp add: py_greater_def py_less_numbers [OF num(1) num(1)])
  have less: "\<forall>p \<in> set valid. \<forall>q \<in> set valid.
      py_less (?key p) (?key q) = Inr ((\<lambda>a b. float_less b a) (points_of q) (points_of p))"
    by (simp add: py_less_numbers [OF num(1) num(1)])
  have ok: "\<forall>p \<in> set valid. (\<lambda>x. x \<noteq> NaN) (points_of p)"
    by (simp add: num(2))
  have "\<exists>i < length valid. extremum py_greater ?key (hd valid) (tl valid) = Inr (valid ! i)
    \<and> (\<forall>k < length valid. \<not> float_less (points_of (valid ! i)) (points_of (valid ! k)))
    \<and> (\<forall>k < i. float_less (points_of (valid ! k)) (points_of (valid ! i)))"
    by (rule extremum_of_list [where lt = float_less and ok = "\<lambda>x. x \<noteq> NaN",
          OF float_less_irrefl float_less_trans float_less_negtrans assms(1) ok greater])
  then obtain i where
    i: "i < length valid" "extremum py_greater ?key (hd valid) (tl valid) = Inr (valid ! i)"
      "\<forall>k < length valid. \<not> float_less (points_of (valid ! i)) (points_of (valid ! k))"
      "\<forall>k < i. float_less (points_of (valid ! k)) (points_of (valid ! i))"
    by blast
  have "\<exists>j < length valid. extremum py_less ?key (hd valid) (tl valid) = Inr (valid ! j)
    \<and> (\<forall>k < length valid. \<not> (\<lambda>a b. float_less b a) (points_of (valid ! j)) (points_of (valid ! k)))
    \<and> (\<forall>k < j. (\<lambda>a b. float_less b a) (points_of (valid ! k)) (points_of (valid ! j)))"
    by (rule extremum_of_list [where lt = "\<lambda>a b. float_less b a" and ok = "\<lambda>x. x \<noteq> NaN",
          OF float_less_irrefl _ _ assms(1) ok less])
       (blast intro: float_less_trans float_greater_negtrans)+
  then obtain j where
    j: "j < length valid" "extremum py_less ?key (hd valid) (tl valid) = Inr (valid ! j)"
      "\<forall>k < length valid. \<not> float_less (points_of (valid ! k)) (points_of (valid ! j))"
      "\<forall>k < j. float_less (points_of (valid ! j)) (points_of (valid ! k))"
    by blast
  have in_valid: "valid ! k \<in> set valid" if "k < length valid" for k
    using that by simp
  have best: "\<forall>k < length valid. float_le (points_of (valid ! k)) (points_of (valid ! i))"
    using i(1,3) by (auto intro!: not_float_less_le num(2) in_valid)
  have worst: "\<forall>k < length valid. float_le (points_of (valid ! j)) (points_of (valid ! k))"
    using j(1,3) by (auto intro!: not_float_less_le num(2) in_valid)
  from assms(1) obtain x rest where xs: "valid = x # rest" by (cases valid) auto
  have mx: "py_max valid ?key = Inr (valid ! i)"
    using i(2) by (simp add: py_max_def xs)
  have mn: "py_min valid ?key = Inr (valid ! j)"
    using j(2) by (simp add: py_min_def xs)
  have fields: "getitem p ''Name'' = Inr (the (p ''Name''))"
    "getitem p ''Player Points'' = Inr (the (p ''Player Points''))" if "p \<in> set valid" for p
    using that assms(2) by (auto simp: getitem_def)
  have "best_worst valid =
        Inr ([0x1F3C6] @ ustr '' **Best Player:** '' @ py_str (the ((valid ! i) ''Name''))
             @ ustr '' - '' @ py_str (the ((valid ! i) ''Player Points'')) @ ustr '' points'' @ [10]
             @ [0x1F4C9] @ ustr '' **Worst Player:** '' @ py_str (the ((valid ! j) ''Name''))
             @ ustr '' - '' @ py_str (the ((valid ! j) ''Player Points'')) @ ustr '' points'')"
    using in_valid [OF i(1)] in_valid [OF j(1)]
    by (simp add: best_worst_def mx mn ebind_def fields nl_def)
  with i(1,4) j(1,4) best worst show ?thesis by blast
qed

lemma sample_points:
  "points_of valued_bowler = Finite 7" "points_of high_scorer = Finite 9"
  "points_of valued_batsman = Finite 9" "points_of nan_scorer = NaN"
  by (simp_all add: points_of_def number_of_def valued_bowler_def high_scorer_def
      valued_batsman_def nan_scorer_def)

section \<open>Blank queries and the empty roster\<close>

lemma strip_Nil_iff: "strip s = [] \<longleftrightarrow> list_all is_space s"
proof
  assume "strip s = []"
  then have "\<forall>c \<in> set (dropWhile is_space s). is_space c"
    by (simp add: strip_def dropWhile_eq_Nil_conv)
  then have "dropWhile is_space s = []"
    using hd_dropWhile [of is_space s] by (cases "dropWhile is_space s") auto
  then show "list_all is_space s"
    by (simp add: dropWhile_eq_Nil_conv list_all_iff)
next
  assume "list_all is_space s"
  then have "dropWhile is_space s = []"
    by (simp add: dropWhile_eq_Nil_conv list_all_iff)
  then show "strip s = []" by (simp only: strip_def rev.simps dropWhile.simps)
qed

lemma load_players_failure:
  assumes "open_file ''data.json'' = Inl FileNotFoundError
    \<or> (\<exists>file. open_file ''data.json'' = Inr file \<and> json_load file = Inl JSONDecodeError)"
  shows "\<exists>message. load_players open_file json_load = Inr (Records [], [message])"
  using assms by (auto simp: load_players_def)

lemma load_players_uncaught:
  assumes "open_file ''data.json'' = Inl OtherException
    \<or> (\<exists>file. open_file ''data.json'' = Inr file \<and> json_load file = Inl OtherException)"
  shows "load_players open_file json_load = Inl OtherException"
  using assms by (auto simp: load_players_def)

lemma category_listing_empty:
  "category_listing [] best_match = Inr ([0x274C] @ ustr '' No '' @ ustr best_match @ ustr ''s found.'')"
  by (simp add: category_listing_def ebind_def)

lemma empty_roster_responses:
  "process_query max_str_digits extractOne [] user_input \<in>
     {Inr (ustr ''Please enter a query.''),
      Inr (ustr ''No players found with valid values.''),
      Inr ([0x274C] @ ustr '' Invalid player index. Please enter a number between 1 and 0.''),
      Inr (ustr ''No players found with valid points data.''),
      Inr ([0x274C] @ ustr '' No batsmans found.''),
      Inr ([0x274C] @ ustr '' No bowlers found.''),
      Inr ([0x274C] @ ustr '' No all-rounders found.''),
      Inr (help_message []),
      Inl ValueError, Inl TypeError}"
proof -
  let ?u = "strip (lower user_input)"
  let ?r = "process_query max_str_digits extractOne [] user_input"
  have zero: "len_text ([] :: player list) = ustr ''0''"
    by (simp add: len_text_def str_int_def digits_of.simps [of 0] digit_char_def ustr_def)
  consider (blank) "strip user_input = []"
    | (list) "strip user_input \<noteq> []" "contains ''player list'' ?u"
    | (number) "strip user_input \<noteq> []" "\<not> contains ''player list'' ?u" "isdigit ?u"
    | (best) "strip user_input \<noteq> []" "\<not> contains ''player list'' ?u" "\<not> isdigit ?u"
        "contains ''best player'' ?u \<or> contains ''worst player'' ?u"
    | (fuzzy) "strip user_input \<noteq> []" "\<not> contains ''player list'' ?u" "\<not> isdigit ?u"
        "\<not> contains ''best player'' ?u" "\<not> contains ''worst player'' ?u"
    by blast
  then show ?thesis
  proof cases
    case blank
    then have "?r = Inr (ustr ''Please enter a query.'')" by (simp add: process_query_def)
    then show ?thesis by simp
  next
    case list
    then have "?r = Inr (ustr ''No players found with valid values.'')"
      by (simp add: process_query_def)
    then show ?thesis by simp
  next
    case number
    note reached = numeric_rule_reached [OF number(3), of max_str_digits extractOne "[]"]
    show ?thesis
    proof (cases "py_int max_str_digits ?u")
      case (Inl e)
      then have "e = ValueError" by (auto simp: py_int_def split: if_splits)
      with Inl reached have "?r = Inl ValueError" by (simp add: ebind_def)
      then show ?thesis by simp
    next
      case (Inr n)
      have "\<not> (0 \<le> n - 1 \<and> n - 1 < int (length ([] :: player list)))" by simp
      with Inr reached have "?r = Inr ([0x274C]
          @ ustr '' Invalid player index. Please enter a number between 1 and '' @ ustr ''0'' @ ustr ''.'')"
        by (simp only: ebind_def sum.case Let_def if_False zero)
      then show ?thesis by (simp add: ustr_def)
    qed
  next
    case best
    then have "?r = Inr (ustr ''No players found with valid points data.'')"
      by (simp add: process_query_def)
    then show ?thesis by simp
  next
    case fuzzy
    note reached = fuzzy_rule_reached [OF fuzzy, of max_str_digits extractOne "[]"]
    show ?thesis
    proof (cases "get_best_match extractOne ?u STANDARD_TERMS 60")
      case (Inl e)
      then have "e = TypeError"
        by (auto simp: get_best_match_def split: if_splits option.splits)
      with Inl reached have "?r = Inl TypeError" by (simp add: ebind_def)
      then show ?thesis by simp
    next
      case (Inr m)
      consider "m = Some ''batsman''" | "m = Some ''bowler''" | "m = Some ''all-rounder''"
        | "m \<notin> Some ` {''batsman'', ''bowler'', ''all-rounder''}" by auto
      then show ?thesis
      proof cases
        case 1
        with Inr reached have "?r = Inr ([0x274C] @ ustr '' No batsmans found.'')"
          by (simp add: ebind_def category_listing_empty ustr_def)
        then show ?thesis by simp
      next
        case 2
        with Inr reached have "?r = Inr ([0x274C] @ ustr '' No bowlers found.'')"
          by (simp add: ebind_def category_listing_empty ustr_def)
        then show ?thesis by simp
      next
        case 3
        with Inr reached have "?r = Inr ([0x274C] @ ustr '' No all-rounders found.'')"
          by (simp add: ebind_def category_listing_empty ustr_def)
        then show ?thesis by simp
      next
        case 4
        with Inr reached have "?r = Inr (help_message [])"
          by (simp add: ebind_def)
        then show ?thesis by simp
      qed
    qed
  qed
qed

section \<open>The detail block of a record\<close>

text \<open>
  The detail block that a numeric query in range gets, for a record that has its text
  fields: the value is "N/A" when the key is missing or null, the points are "N/A"
  when the key is missing, and the text of the value of the key otherwise.
\<close>

lemma detail_block_at_index:
  assumes "1 \<le> i" "i \<le> length players" "length players < 2 ^ 63"
    and "p = players ! (i - 1)"
    and "p ''Name'' = Some name" "p ''University'' = Some university"
    and "p ''Category'' = Some category"
  shows "process_query max_str_digits extractOne players (str_int (int i)) =
     Inr ([0x1F3CF] @ ustr '' **Player Details:**'' @ nl
          @ ustr ''**Name:** '' @ py_str name @ nl
          @ ustr ''**University:** '' @ py_str university @ nl
          @ ustr ''**Category:** '' @ py_str category @ nl
          @ ustr ''**Value:** ''
          @ (case p ''Value'' of None \<Rightarrow> ustr ''N/A'' | Some JNull \<Rightarrow> ustr ''N/A''
             | Some v \<Rightarrow> ustr ''$'' @ py_str v) @ nl
          @ ustr ''**Points:** ''
          @ (case p ''Player Points'' of None \<Rightarrow> ustr ''N/A'' | Some v \<Rightarrow> py_str v))"
proof -
  from assms(2,3) have "i < 2 ^ 64" by simp
  then have conv: "py_int max_str_digits (digits_of i) = Inr (int i)"
    by (rule py_int_digits_of)
  have q: "strip (lower (str_int (int i))) = digits_of i" "isdigit (strip (lower (str_int (int i))))"
    by (simp_all add: str_int_nat numeric_query_text)
  have idx: "0 \<le> int i - 1 \<and> int i - 1 < int (length players)" "nat (int i - 1) = i - 1"
    using assms(1,2) by auto
  have v: "value_text p = Inr (case p ''Value'' of None \<Rightarrow> ustr ''N/A'' | Some JNull \<Rightarrow> ustr ''N/A''
             | Some v \<Rightarrow> ustr ''$'' @ py_str v)"
    by (auto simp: value_text_def present_def dget_def getitem_def ebind_def
        split: option.splits json.splits)
  have "player_details p = Inr ([0x1F3CF] @ ustr '' **Player Details:**'' @ nl
          @ ustr ''**Name:** '' @ py_str name @ nl
          @ ustr ''**University:** '' @ py_str university @ nl
          @ ustr ''**Category:** '' @ py_str category @ nl
          @ ustr ''**Value:** ''
          @ (case p ''Value'' of None \<Rightarrow> ustr ''N/A'' | Some JNull \<Rightarrow> ustr ''N/A''
             | Some v \<Rightarrow> ustr ''$'' @ py_str v) @ nl
          @ ustr ''**Points:** ''
          @ (case p ''Player Points'' of None \<Rightarrow> ustr ''N/A'' | Some v \<Rightarrow> py_str v))"
    using assms(5-7)
    by (simp add: player_details_def v ebind_def getitem_def dget_default_def py_str_def
        split: option.splits)
  then show ?thesis
    using numeric_rule_reached [OF q(2), of max_str_digits extractOne players] assms(1,2)
    by (simp add: q(1) conv ebind_def Let_def idx assms(4) del: of_nat_diff)
qed

section \<open>Conversion of the numeric query\<close>

text \<open>
  C1. The claim: for every input, \<open>process_query\<close> returns a string and never raises,
  and the conversion of a numeric query to an index never throws. The numeric branch is
  guarded by \<open>str.isdigit\<close>, which also accepts the superscript digits; \<open>int\<close> refuses
  them. On the query that consists of the one character U+00B2 the function raises
  \<open>ValueError\<close>, whatever the roster is.
\<close>

theorem superscript_digit_raises:
  "process_query max_str_digits extractOne players [CHR 0xB2] = Inl ValueError"
  by (simp add: process_query_def strip_def is_space_def lower_def lower_char_def isdigit_def
      is_digit_char_def py_int_def is_decimal_char_def ebind_def)

section \<open>The detail block with null points\<close>

text \<open>
  C2. The claim: the numeric query \<open>i\<close> returns the detail block of the record at
  position \<open>i\<close>, with the points or "N/A" when the points are absent. The points are
  read with \<open>p.get('Player Points', 'N/A')\<close>: the default stands in for a missing key
  only, so a record whose points are null is shown with the points "None".
\<close>

theorem null_points_detail_block:
  "process_query max_str_digits extractOne [unscored_player] ''1'' =
     Inr ([0x1F3CF] @ ustr '' **Player Details:**'' @ nl
          @ ustr ''**Name:** A'' @ nl
          @ ustr ''**University:** U'' @ nl
          @ ustr ''**Category:** Batsman'' @ nl
          @ ustr ''**Value:** N/A'' @ nl
          @ ustr ''**Points:** None'')"
  by (simp add: process_query_def strip_def is_space_def lower_def lower_char_def isdigit_def
      is_digit_char_def py_int_def is_decimal_char_def ebind_def MAX_STR_DIGITS_THRESHOLD_def
      decimal_value_def digit_value_def player_details_def unscored_player_def dget_default_def
      value_text_def present_def dget_def getitem_def py_str_def ustr_def nl_def)

section \<open>The player list\<close>

text \<open>
  C3. A query whose lower-case form contains "player list" is answered by the list rule,
  whatever else it contains. With \<open>N\<close> the number of records whose value is present
  (not null), the answer is the "none found" message when \<open>N\<close> is 0. Otherwise it is
  the header with the number \<open>N\<close>, followed by exactly \<open>N\<close> entries, each after a line
  feed: the entry of the record at position \<open>k\<close> of the filtered list (from 0) is its
  number \<open>k + 1\<close>, a full stop, and the name, university, category and value of the
  record. The records with a value have the keys Name, University and Category.
\<close>

theorem player_list:
  assumes "contains ''player list'' (lower user_input)"
    and "\<forall>p \<in> set players. present p ''Value'' \<longrightarrow>
           p ''Name'' \<noteq> None \<and> p ''University'' \<noteq> None \<and> p ''Category'' \<noteq> None"
    and "valid = filter (\<lambda>p. \<exists>v. p ''Value'' = Some v \<and> v \<noteq> JNull) players"
  shows "(valid = [] \<longrightarrow>
            process_query max_str_digits extractOne players user_input
              = Inr (ustr ''No players found with valid values.''))
       \<and> (valid \<noteq> [] \<longrightarrow>
            process_query max_str_digits extractOne players user_input
              = Inr ([0x1F4CB] @ ustr '' **Player List ('' @ ustr (str_int (int (length valid)))
                     @ ustr '' players):**''
                     @ concat (map (\<lambda>k. [10] @ ustr (str_int (int k + 1)) @ ustr ''. ''
                                          @ valued_info (valid ! k))
                                 [0..<length valid])))"
proof -
  have valid: "valid = filter (\<lambda>p. present p ''Value'') players"
    using assms(3) by (simp add: present_iff)
  show ?thesis
  proof (intro conjI impI)
    assume "valid = []"
    then show "process_query max_str_digits extractOne players user_input
              = Inr (ustr ''No players found with valid values.'')"
      using valid by (simp add: list_rule_reached [OF assms(1)])
  next
    assume ne: "valid \<noteq> []"
    let ?entry = "\<lambda>k. ustr (str_int (int k + 1)) @ ustr ''. '' @ valued_info (valid ! k)"
    from assms(2) valid
    have "\<forall>p \<in> set valid. present p ''Value'' \<and> p ''Name'' \<noteq> None \<and> p ''University'' \<noteq> None
      \<and> p ''Category'' \<noteq> None" by simp
    then have n: "numbered valid = Inr (map ?entry [0..<length valid])"
      by (rule numbered_closed)
    from ne have "map ?entry [0..<length valid] \<noteq> []" by simp
    then have "nl @ join nl (map ?entry [0..<length valid])
        = concat (map (\<lambda>x. nl @ x) (map ?entry [0..<length valid]))"
      by (rule join_concat)
    also have "\<dots> = concat (map (\<lambda>k. [10] @ ?entry k) [0..<length valid])"
      by (simp add: nl_def o_def)
    finally have j: "nl @ join nl (map ?entry [0..<length valid])
        = concat (map (\<lambda>k. [10] @ ?entry k) [0..<length valid])" .
    have "process_query max_str_digits extractOne players user_input
        = Inr ([0x1F4CB] @ ustr '' **Player List ('' @ ustr (str_int (int (length valid)))
               @ ustr '' players):**'' @ (nl @ join nl (map ?entry [0..<length valid])))"
      using ne valid n
      by (simp add: list_rule_reached [OF assms(1)] Let_def ebind_def len_text_def)
    then show "process_query max_str_digits extractOne players user_input
              = Inr ([0x1F4CB] @ ustr '' **Player List ('' @ ustr (str_int (int (length valid)))
                     @ ustr '' players):**''
                     @ concat (map (\<lambda>k. [10] @ ustr (str_int (int k + 1)) @ ustr ''. ''
                                          @ valued_info (valid ! k))
                                 [0..<length valid]))"
      by (simp only: j)
  qed
qed

lemma valued_info_samples:
  "valued_info valued_bowler = map of_char ''B - V - BOWLER - $120''"
  "valued_info valued_batsman = map of_char ''D - X - Batsman - $8.5''"
  "str_int 1 = ''1''" "str_int 2 = ''2''" "[0..<2] = [0, 1]"
  by code_simp+

theorem player_list_witness:
  "contains ''player list'' (lower ''Best Player List'')
   \<and> [valued_bowler, valued_batsman] =
       filter (\<lambda>p. \<exists>v. p ''Value'' = Some v \<and> v \<noteq> JNull)
         [valued_bowler, unscored_player, valued_batsman]
   \<and> process_query 4300 no_match [valued_bowler, unscored_player, valued_batsman] ''Best Player List''
       = Inr ([0x1F4CB] @ map of_char '' **Player List (2 players):**'' @ [10]
              @ map of_char ''1. B - V - BOWLER - $120'' @ [10]
              @ map of_char ''2. D - X - Batsman - $8.5'')"
proof -
  have h1: "contains ''player list'' (lower ''Best Player List'')" by code_simp
  have h2: "\<forall>p \<in> set [valued_bowler, unscored_player, valued_batsman]. present p ''Value'' \<longrightarrow>
           p ''Name'' \<noteq> None \<and> p ''University'' \<noteq> None \<and> p ''Category'' \<noteq> None"
    by (simp add: unscored_player_def valued_bowler_def valued_batsman_def)
  have h3: "[valued_bowler, valued_batsman] =
       filter (\<lambda>p. \<exists>v. p ''Value'' = Some v \<and> v \<noteq> JNull)
         [valued_bowler, unscored_player, valued_batsman]"
    by (simp add: unscored_player_def valued_bowler_def valued_batsman_def)
  have "process_query 4300 no_match [valued_bowler, unscored_player, valued_batsman] ''Best Player List''
       = Inr ([0x1F4CB] @ map of_char '' **Player List (2 players):**'' @ [10]
              @ map of_char ''1. B - V - BOWLER - $120'' @ [10]
              @ map of_char ''2. D - X - Batsman - $8.5'')"
    using player_list [OF h1 h2 h3, of 4300 no_match]
    by (simp add: valued_info_samples ustr_def)
  with h1 h3 show ?thesis by (intro conjI)
qed

section \<open>The best and the worst player\<close>

text \<open>
  C4. The claim: a query that contains "best player" or "worst player" (and matches no
  earlier rule) names a best record whose points are at least the points of every record
  with points, and a worst record whose points are at most the points of every such
  record. The parser accepts the literal NaN as points, and every comparison with NaN
  is false: in the roster of \<open>nan_scorer\<close> and \<open>valued_bowler\<close> the scans of \<open>max\<close>
  and of \<open>min\<close> both keep the first record, whose points are neither at least nor at
  most the 7 points of the second.
\<close>

theorem best_and_worst_nan_counterexample:
  "contains ''best player'' (lower ''best player'')
   \<and> nan_scorer ''Player Points'' = Some (JFloat NaN ''nan'')
   \<and> valued_bowler ''Player Points'' = Some (JInt 7)
   \<and> process_query 4300 no_match [nan_scorer, valued_bowler] ''best player''
       = Inr ([0x1F3C6] @ map of_char '' **Best Player:** N - nan points'' @ [10]
              @ [0x1F4C9] @ map of_char '' **Worst Player:** N - nan points'')
   \<and> points_of nan_scorer = NaN
   \<and> points_of valued_bowler = Finite 7
   \<and> \<not> float_le (points_of valued_bowler) (points_of nan_scorer)
   \<and> \<not> float_le (points_of nan_scorer) (points_of valued_bowler)
   \<and> py_less (JFloat NaN ''nan'') (JInt 7) = Inr False
   \<and> py_greater (JFloat NaN ''nan'') (JInt 7) = Inr False"
proof -
  have c: "contains ''best player'' (lower ''best player'')"
    and l: "\<not> contains ''player list'' (lower ''best player'')"
    by code_simp+
  have "process_query 4300 no_match [nan_scorer, valued_bowler] ''best player''
      = best_worst [nan_scorer, valued_bowler]"
    using best_worst_rule_reached [of "''best player''" 4300 no_match "[nan_scorer, valued_bowler]"] c l
    by (simp add: Let_def present_def dget_def nan_scorer_def valued_bowler_def)
  also have "\<dots> = Inr ([0x1F3C6] @ map of_char '' **Best Player:** N - nan points'' @ [10]
              @ [0x1F4C9] @ map of_char '' **Worst Player:** N - nan points'')"
    by (simp add: best_worst_def py_max_def py_min_def ebind_def py_greater_def py_less_def
        number_of_def dget_default_def getitem_def nan_scorer_def valued_bowler_def py_str_def
        ustr_def nl_def)
  finally show ?thesis
    using c
    by (simp add: float_le_def py_less_def py_greater_def number_of_def points_of_def
        nan_scorer_def valued_bowler_def)
qed

text \<open>
  C4, amended. In a roster where the points that are present are numbers other than NaN
  (ints or floats) and the records with points have the key Name, a query that
  contains "best player" or "worst player", but not "player list", is answered from the
  records whose points are present (not null). Without such a record the answer is
  the "no points data" message. Otherwise the answer is one message that names a best
  record, whose points are at least the points of every such record and more than the
  points of every earlier one, and a worst record, whose points are at most the points of
  every such record and less than the points of every earlier one.
\<close>

theorem best_and_worst:
  assumes "contains ''best player'' (lower user_input) \<or> contains ''worst player'' (lower user_input)"
    and "\<not> contains ''player list'' (lower user_input)"
    and "\<forall>p \<in> set players. present p ''Player Points'' \<longrightarrow>
           (\<exists>v x. p ''Player Points'' = Some v \<and> number_of v = Some x \<and> x \<noteq> NaN)
           \<and> p ''Name'' \<noteq> None"
    and "valid = filter (\<lambda>p. \<exists>v. p ''Player Points'' = Some v \<and> v \<noteq> JNull) players"
  shows "(valid = [] \<longrightarrow>
            process_query max_str_digits extractOne players user_input
              = Inr (ustr ''No players found with valid points data.''))
       \<and> (valid \<noteq> [] \<longrightarrow>
            (\<exists>i < length valid. \<exists>j < length valid.
                (\<forall>k < length valid. float_le (points_of (valid ! k)) (points_of (valid ! i)))
              \<and> (\<forall>k < i. float_less (points_of (valid ! k)) (points_of (valid ! i)))
              \<and> (\<forall>k < length valid. float_le (points_of (valid ! j)) (points_of (valid ! k)))
              \<and> (\<forall>k < j. float_less (points_of (valid ! j)) (points_of (valid ! k)))
              \<and> process_query max_str_digits extractOne players user_input =
                  Inr ([0x1F3C6] @ ustr '' **Best Player:** '' @ py_str (the ((valid ! i) ''Name''))
                       @ ustr '' - '' @ py_str (the ((valid ! i) ''Player Points''))
                       @ ustr '' points'' @ [10]
                       @ [0x1F4C9] @ ustr '' **Worst Player:** '' @ py_str (the ((valid ! j) ''Name''))
                       @ ustr '' - '' @ py_str (the ((valid ! j) ''Player Points''))
                       @ ustr '' points'')))"
proof -
  have valid: "valid = filter (\<lambda>p. present p ''Player Points'') players"
    using assms(4) by (simp add: present_iff)
  have reached: "process_query max_str_digits extractOne players user_input =
      (if valid = [] then Inr (ustr ''No players found with valid points data.'')
       else best_worst valid)"
    by (simp add: best_worst_rule_reached [OF assms(1,2)] valid Let_def)
  have "\<forall>p \<in> set valid.
           (\<exists>v x. p ''Player Points'' = Some v \<and> number_of v = Some x \<and> x \<noteq> NaN)
           \<and> p ''Name'' \<noteq> None"
    using assms(3) valid by simp
  then show ?thesis
    using best_worst_scored [of valid] by (simp add: reached)
qed

theorem best_and_worst_witness:
  "contains ''worst player'' (lower ''Worst Player?'')
   \<and> \<not> contains ''player list'' (lower ''Worst Player?'')
   \<and> [valued_bowler, high_scorer, valued_batsman] =
       filter (\<lambda>p. \<exists>v. p ''Player Points'' = Some v \<and> v \<noteq> JNull)
         [valued_bowler, unscored_player, high_scorer, valued_batsman]
   \<and> process_query 4300 no_match [valued_bowler, unscored_player, high_scorer, valued_batsman]
         ''Worst Player?''
       = Inr ([0x1F3C6] @ map of_char '' **Best Player:** C - 9 points'' @ [10]
              @ [0x1F4C9] @ map of_char '' **Worst Player:** B - 7 points'')"
proof -
  let ?valid = "[valued_bowler, high_scorer, valued_batsman]"
  let ?players = "[valued_bowler, unscored_player, high_scorer, valued_batsman]"
  have w: "contains ''worst player'' (lower ''Worst Player?'')"
    and h2: "\<not> contains ''player list'' (lower ''Worst Player?'')"
    by code_simp+
  from w have h1: "contains ''best player'' (lower ''Worst Player?'')
      \<or> contains ''worst player'' (lower ''Worst Player?'')" ..
  have h3: "\<forall>p \<in> set ?players. present p ''Player Points'' \<longrightarrow>
           (\<exists>v x. p ''Player Points'' = Some v \<and> number_of v = Some x \<and> x \<noteq> NaN)
           \<and> p ''Name'' \<noteq> None"
    by (simp add: unscored_player_def valued_bowler_def high_scorer_def valued_batsman_def
        present_iff number_of_def)
  have h4: "?valid = filter (\<lambda>p. \<exists>v. p ''Player Points'' = Some v \<and> v \<noteq> JNull) ?players"
    by (simp add: unscored_player_def valued_bowler_def high_scorer_def valued_batsman_def)
  from best_and_worst [OF h1 h2 h3 h4, of 4300 no_match]
  obtain i j where ij: "i < 3" "j < 3"
    "\<forall>k < 3. float_le (points_of (?valid ! k)) (points_of (?valid ! i))"
    "\<forall>k < i. float_less (points_of (?valid ! k)) (points_of (?valid ! i))"
    "\<forall>k < 3. float_le (points_of (?valid ! j)) (points_of (?valid ! k))"
    and out: "process_query 4300 no_match ?players ''Worst Player?'' =
       Inr ([0x1F3C6] @ ustr '' **Best Player:** '' @ py_str (the ((?valid ! i) ''Name''))
            @ ustr '' - '' @ py_str (the ((?valid ! i) ''Player Points'')) @ ustr '' points'' @ [10]
            @ [0x1F4C9] @ ustr '' **Worst Player:** '' @ py_str (the ((?valid ! j) ''Name''))
            @ ustr '' - '' @ py_str (the ((?valid ! j) ''Player Points'')) @ ustr '' points'')"
    by (auto simp: numeral_3_eq_3)
  have three: "k = 0 \<or> k = 1 \<or> k = 2" if "k < 3" for k :: nat using that by auto
  from ij(3) have "(1::nat) < 3 \<longrightarrow> float_le (points_of (?valid ! 1)) (points_of (?valid ! i))"
    by (rule spec)
  then have "float_le (Finite 9) (points_of (?valid ! i))" by (simp add: sample_points)
  with three [OF ij(1)] have "i = 1 \<or> i = 2"
    by (auto simp: sample_points float_le_def)
  moreover have "i \<noteq> 2"
  proof
    assume "i = 2"
    with ij(4) have "(1::nat) < 2 \<longrightarrow> float_less (points_of (?valid ! 1)) (points_of (?valid ! 2))"
      by blast
    then show False by (simp add: sample_points)
  qed
  ultimately have i: "i = 1" by simp
  from ij(5) have "(0::nat) < 3 \<longrightarrow> float_le (points_of (?valid ! j)) (points_of (?valid ! 0))"
    by (rule spec)
  then have "float_le (points_of (?valid ! j)) (Finite 7)" by (simp add: sample_points)
  with three [OF ij(2)] have j: "j = 0"
    by (auto simp: sample_points float_le_def)
  have texts: "str_int 7 = ''7''" "str_int 9 = ''9''" by code_simp+
  from out have "process_query 4300 no_match ?players ''Worst Player?''
       = Inr ([0x1F3C6] @ map of_char '' **Best Player:** C - 9 points'' @ [10]
              @ [0x1F4C9] @ map of_char '' **Worst Player:** B - 7 points'')"
    by (simp add: i j texts py_str_def ustr_def valued_bowler_def high_scorer_def)
  with w h2 h4 show ?thesis by (intro conjI)
qed

section \<open>Numeric queries out of range\<close>

text \<open>
  C5. A numeric query whose index is outside the range from 1 to the size of the roster
  gets the message that names this range, as an ordinary response. This holds for every
  query of digits that \<open>int\<close> converts, for the query "0", and for the query that is the
  size of the roster plus one (the size of a Python list is below \<open>2 ^ 63\<close>).
\<close>

theorem out_of_range_index:
  "(let message = [0x274C] @ ustr '' Invalid player index. Please enter a number between 1 and ''
                  @ ustr (str_int (int (length players))) @ ustr ''.''
    in (isdigit (strip (lower user_input))
          \<and> py_int max_str_digits (strip (lower user_input)) = Inr n
          \<and> (n < 1 \<or> int (length players) < n)
        \<longrightarrow> process_query max_str_digits extractOne players user_input = Inr message)
     \<and> process_query max_str_digits extractOne players ''0'' = Inr message
     \<and> (length players < 2 ^ 63
        \<longrightarrow> process_query max_str_digits extractOne players (str_int (int (length players) + 1))
            = Inr message))"
proof -
  have general: "process_query max_str_digits extractOne players q =
      Inr ([0x274C] @ ustr '' Invalid player index. Please enter a number between 1 and ''
           @ ustr (str_int (int (length players))) @ ustr ''.'')"
    if "isdigit (strip (lower q))" "py_int max_str_digits (strip (lower q)) = Inr k"
      "k < 1 \<or> int (length players) < k" for q k
    using that by (auto simp: numeric_rule_reached ebind_def Let_def len_text_def)
  have zero: "isdigit (strip (lower ''0''))" "py_int max_str_digits (strip (lower ''0'')) = Inr 0"
    using numeric_query_text [of 0] py_int_digits_of [of 0 max_str_digits]
    by (simp_all add: digits_of_small)
  have succ: "isdigit (strip (lower (str_int (int (length players) + 1))))"
    "py_int max_str_digits (strip (lower (str_int (int (length players) + 1))))
       = Inr (int (Suc (length players)))"
    if "length players < 2 ^ 63"
  proof -
    from that have "Suc (length players) < 2 ^ 64" by simp
    then show "py_int max_str_digits (strip (lower (str_int (int (length players) + 1))))
       = Inr (int (Suc (length players)))"
      by (simp only: str_int_succ_length numeric_query_text py_int_digits_of)
    show "isdigit (strip (lower (str_int (int (length players) + 1))))"
      by (simp only: str_int_succ_length numeric_query_text)
  qed
  show ?thesis
    unfolding Let_def
  proof (intro conjI impI)
    assume "isdigit (strip (lower user_input))
          \<and> py_int max_str_digits (strip (lower user_input)) = Inr n
          \<and> (n < 1 \<or> int (length players) < n)"
    then show "process_query max_str_digits extractOne players user_input =
      Inr ([0x274C] @ ustr '' Invalid player index. Please enter a number between 1 and ''
           @ ustr (str_int (int (length players))) @ ustr ''.'')"
      using general [of user_input n] by blast
  next
    show "process_query max_str_digits extractOne players ''0'' =
      Inr ([0x274C] @ ustr '' Invalid player index. Please enter a number between 1 and ''
           @ ustr (str_int (int (length players))) @ ustr ''.'')"
      using general [of "''0''" 0] zero by simp
  next
    assume "length players < 2 ^ 63"
    from succ [OF this] show "process_query max_str_digits extractOne players
        (str_int (int (length players) + 1)) =
      Inr ([0x274C] @ ustr '' Invalid player index. Please enter a number between 1 and ''
           @ ustr (str_int (int (length players))) @ ustr ''.'')"
      using general [of "str_int (int (length players) + 1)" "int (Suc (length players))"]
      by simp
  qed
qed

lemma strip_lower_7: "strip (lower '' 7 '') = ''7''" "str_int 1 = ''1''" "str_int 2 = ''2''"
  by code_simp+

theorem out_of_range_index_witness:
  "isdigit (strip (lower '' 7 ''))
   \<and> py_int 4300 (strip (lower '' 7 '')) = Inr 7
   \<and> int (length [unscored_player]) < 7
   \<and> length [unscored_player] < 2 ^ 63
   \<and> process_query 4300 no_match [unscored_player] '' 7 ''
       = Inr ([0x274C] @ ustr '' Invalid player index. Please enter a number between 1 and 1.'')
   \<and> process_query 4300 no_match [unscored_player] ''2''
       = Inr ([0x274C] @ ustr '' Invalid player index. Please enter a number between 1 and 1.'')"
  using out_of_range_index [where user_input = "'' 7 ''" and max_str_digits = 4300
      and extractOne = no_match and players = "[unscored_player]" and n = 7]
  by (simp add: Let_def strip_lower_7 isdigit_def is_digit_char_def py_int_def is_decimal_char_def
      MAX_STR_DIGITS_THRESHOLD_def decimal_value_def digit_value_def ustr_def)

section \<open>Players by category\<close>

text \<open>
  C6. For a roster whose records all have a string as category,
  \<open>get_players_by_category\<close> returns exactly the records whose category equals the
  given one after both are put in lower case and whose value is present (the key is
  there and is not null), in the order of the roster.
\<close>

theorem players_by_category:
  assumes "\<forall>p \<in> set players. \<exists>s. p ''Category'' = Some (JStr s)"
  shows "get_players_by_category players category =
    Inr (filter (\<lambda>p. (\<exists>s. p ''Category'' = Some (JStr s) \<and> lower s = lower category)
                    \<and> (\<exists>v. p ''Value'' = Some v \<and> v \<noteq> JNull)) players)"
  using assms
proof (induction players)
  case Nil
  then show ?case by simp
next
  case (Cons p players)
  then obtain s where s: "p ''Category'' = Some (JStr s)" by auto
  then have "category_lower p = Inr (lower s)"
    by (simp add: category_lower_def dget_default_def)
  with Cons s show ?case
    by (simp add: ebind_def present_iff)
qed

lemma lower_bowler: "lower ''BOWLER'' = ''bowler''" "lower ''Bowler'' = ''bowler''"
  "lower ''Batsman'' = ''batsman''"
  by code_simp+

theorem players_by_category_witness:
  "unscored_player ''Category'' = Some (JStr ''Batsman'')
   \<and> valued_bowler ''Category'' = Some (JStr ''BOWLER'')
   \<and> get_players_by_category [unscored_player, valued_bowler] ''Bowler'' = Inr [valued_bowler]
   \<and> get_players_by_category [unscored_player, valued_bowler] ''Batsman'' = Inr []"
  using players_by_category [of "[unscored_player, valued_bowler]" "''Bowler''"]
    players_by_category [of "[unscored_player, valued_bowler]" "''Batsman''"]
  by (simp add: unscored_player_def valued_bowler_def lower_bowler)

section \<open>Loading failures\<close>

text \<open>
  C7. The claim: when the file is missing or malformed, \<open>load_players\<close> returns the empty
  roster, and every later query gives its empty-result message instead of crashing.
  The roster is empty indeed, after the message of \<open>st.error\<close>, but the query U+00B2
  still raises \<open>ValueError\<close> on it.
\<close>

theorem load_failure_then_superscript_digit:
  "load_players (\<lambda>path. Inl FileNotFoundError) json_load =
     Inr (Records [],
          [[0x274C] @ ustr '' data.json file not found. Please make sure the file exists in the same directory.''])
   \<and> load_players (\<lambda>path. Inr file) (\<lambda>text. Inl JSONDecodeError) =
       Inr (Records [], [[0x274C] @ ustr '' Invalid JSON format in data.json file.''])
   \<and> process_query max_str_digits extractOne [] [CHR 0xB2] = Inl ValueError"
  by (simp add: load_players_def process_query_def strip_def is_space_def lower_def lower_char_def
      isdigit_def is_digit_char_def py_int_def is_decimal_char_def ebind_def)

section \<open>The prompt and the fallback\<close>

text \<open>
  C8. A query that is empty or consists of white space gets the fixed prompt. A query
  that matches no rule (it does not contain "player list", is not numeric, contains
  neither "best player" nor "worst player", and the score of its best fuzzy match is
  below the threshold 60) gets the help message: it lists the query forms "player
  list", "batsman", "bowler", "all-rounder", "best player" and a number, and names the
  numeric range from 1 to the size of the roster.
\<close>

theorem prompt_and_fallback:
  "(list_all is_space user_input \<longrightarrow>
      process_query max_str_digits extractOne players user_input = Inr (ustr ''Please enter a query.''))
   \<and> (\<not> list_all is_space user_input
      \<and> \<not> contains ''player list'' (strip (lower user_input))
      \<and> \<not> isdigit (strip (lower user_input))
      \<and> \<not> contains ''best player'' (strip (lower user_input))
      \<and> \<not> contains ''worst player'' (strip (lower user_input))
      \<and> extractOne (strip (lower user_input)) STANDARD_TERMS = Some (match, score)
      \<and> score < 60 \<longrightarrow>
      process_query max_str_digits extractOne players user_input =
        Inr ([0x1F914] @ ustr '' I didn't understand your query. Try asking about:'' @ [10]
             @ [0x2022] @ ustr '' **'player list'** - to see all players'' @ [10]
             @ [0x2022] @ ustr '' **'batsman'**, **'bowler'**, or **'all-rounder'** - to filter by category''
             @ [10]
             @ [0x2022] @ ustr '' **'best player'** - to see the best and worst players'' @ [10]
             @ [0x2022] @ ustr '' **A number (1-'' @ ustr (str_int (int (length players)))
             @ ustr '')** - to get details about a specific player''))"
proof (intro conjI impI)
  assume "list_all is_space user_input"
  then have "strip user_input = []" by (simp add: strip_Nil_iff)
  then show "process_query max_str_digits extractOne players user_input = Inr (ustr ''Please enter a query.'')"
    by (simp add: process_query_def)
next
  assume h: "\<not> list_all is_space user_input
      \<and> \<not> contains ''player list'' (strip (lower user_input))
      \<and> \<not> isdigit (strip (lower user_input))
      \<and> \<not> contains ''best player'' (strip (lower user_input))
      \<and> \<not> contains ''worst player'' (strip (lower user_input))
      \<and> extractOne (strip (lower user_input)) STANDARD_TERMS = Some (match, score)
      \<and> score < 60"
  then have n: "strip user_input \<noteq> []" by (simp add: strip_Nil_iff)
  from h have "get_best_match extractOne (strip (lower user_input)) STANDARD_TERMS 60 = Inr None"
    by (simp add: get_best_match_def)
  with h n have "process_query max_str_digits extractOne players user_input = Inr (help_message players)"
    by (simp add: fuzzy_rule_reached ebind_def)
  then show "process_query max_str_digits extractOne players user_input =
        Inr ([0x1F914] @ ustr '' I didn't understand your query. Try asking about:'' @ [10]
             @ [0x2022] @ ustr '' **'player list'** - to see all players'' @ [10]
             @ [0x2022] @ ustr '' **'batsman'**, **'bowler'**, or **'all-rounder'** - to filter by category''
             @ [10]
             @ [0x2022] @ ustr '' **'best player'** - to see the best and worst players'' @ [10]
             @ [0x2022] @ ustr '' **A number (1-'' @ ustr (str_int (int (length players)))
             @ ustr '')** - to get details about a specific player'')"
    by (simp add: help_message_def len_text_def nl_def)
qed

lemma strip_xyz: "strip ''xyz123'' = ''xyz123''" "lower ''xyz123'' = ''xyz123''" "str_int 3 = ''3''"
  by code_simp+

theorem prompt_and_fallback_witness:
  "list_all is_space ''   ''
   \<and> process_query 4300 no_match [valued_bowler, unscored_player, high_scorer] ''   ''
       = Inr (map of_char ''Please enter a query.'')
   \<and> \<not> list_all is_space ''xyz123''
   \<and> \<not> contains ''player list'' (strip (lower ''xyz123''))
   \<and> \<not> isdigit (strip (lower ''xyz123''))
   \<and> \<not> contains ''best player'' (strip (lower ''xyz123''))
   \<and> \<not> contains ''worst player'' (strip (lower ''xyz123''))
   \<and> no_match (strip (lower ''xyz123'')) STANDARD_TERMS = Some (''batsman'', 0)
   \<and> process_query 4300 no_match [valued_bowler, unscored_player, high_scorer] ''xyz123''
       = Inr ([0x1F914] @ map of_char '' I didn't understand your query. Try asking about:'' @ [10]
              @ [0x2022] @ map of_char '' **'player list'** - to see all players'' @ [10]
              @ [0x2022] @ map of_char '' **'batsman'**, **'bowler'**, or **'all-rounder'** - to filter by category''
              @ [10]
              @ [0x2022] @ map of_char '' **'best player'** - to see the best and worst players'' @ [10]
              @ [0x2022] @ map of_char '' **A number (1-3)** - to get details about a specific player'')"
  using prompt_and_fallback [where user_input = "''   ''" and max_str_digits = 4300
      and extractOne = no_match and players = "[valued_bowler, unscored_player, high_scorer]"]
    prompt_and_fallback [where user_input = "''xyz123''" and max_str_digits = 4300
      and extractOne = no_match and players = "[valued_bowler, unscored_player, high_scorer]"
      and match = "''batsman''" and score = 0]
  by (simp add: strip_xyz no_match_def isdigit_def is_digit_char_def is_space_def ustr_def)

section \<open>Fuzzy matches that are not categories\<close>

text \<open>
  C10. When a query reaches the fuzzy rule and its best match, with a score of at least
  60, is one of the terms "player list", "best player", "worst player", the answer is
  the help message: the fuzzy rule acts on the three category terms only.
\<close>

theorem fuzzy_non_category_term_falls_back:
  assumes "strip user_input \<noteq> []"
    and "\<not> contains ''player list'' (strip (lower user_input))"
    and "\<not> isdigit (strip (lower user_input))"
    and "\<not> contains ''best player'' (strip (lower user_input))"
    and "\<not> contains ''worst player'' (strip (lower user_input))"
    and "extractOne (strip (lower user_input)) STANDARD_TERMS = Some (match, score)"
    and "score \<ge> 60"
    and "match \<in> {''player list'', ''best player'', ''worst player''}"
  shows "process_query max_str_digits extractOne players user_input = Inr (help_message players)"
proof -
  have "get_best_match extractOne (strip (lower user_input)) STANDARD_TERMS 60
          = Inr None
      \<or> get_best_match extractOne (strip (lower user_input)) STANDARD_TERMS 60
          = Inr (Some match)"
    using assms(6,7) by (simp add: get_best_match_def)
  moreover have "Some match \<notin> Some ` {''batsman'', ''bowler'', ''all-rounder''}"
    using assms(8) by auto
  ultimately show ?thesis
    using assms(1-5) by (auto simp: fuzzy_rule_reached ebind_def)
qed

lemma strip_playerlist: "strip ''playerlist'' = ''playerlist''" "lower ''playerlist'' = ''playerlist''"
  by (simp_all add: strip_def is_space_def lower_def lower_char_def)

theorem fuzzy_non_category_term_falls_back_witness:
  "strip ''playerlist'' \<noteq> []
   \<and> \<not> contains ''player list'' (strip (lower ''playerlist''))
   \<and> \<not> isdigit (strip (lower ''playerlist''))
   \<and> \<not> contains ''best player'' (strip (lower ''playerlist''))
   \<and> \<not> contains ''worst player'' (strip (lower ''playerlist''))
   \<and> near_list (strip (lower ''playerlist'')) STANDARD_TERMS = Some (''player list'', 95)
   \<and> process_query 4300 near_list [] ''playerlist'' = Inr (help_message [])"
  using fuzzy_non_category_term_falls_back [where user_input = "''playerlist''"
      and max_str_digits = 4300 and extractOne = near_list and players = "[]"
      and match = "''player list''" and score = 95]
  by (simp add: strip_playerlist near_list_def isdigit_def is_digit_char_def)

end
